theory Spec2Isabelle
  imports Complex_Main
begin

section \<open>Base rings, coercion and errors\<close>

text \<open>
  The base rings that \<^verbatim>\<open>library.py\<close> imports or builds: \<^verbatim>\<open>ZZ\<close>, \<^verbatim>\<open>QQ\<close>,
  \<^verbatim>\<open>AA\<close> (real algebraic numbers), \<^verbatim>\<open>RDF\<close> and \<^verbatim>\<open>RR\<close> (floating point) and
  \<^verbatim>\<open>QuadraticField(D, ...)\<close>. Ring elements are represented by the real number they
  denote. For the exact rings this is what the program computes. For \<^verbatim>\<open>RDF\<close> and
  \<^verbatim>\<open>RR\<close> it is an idealisation: rounding is not modelled. The statements below
  about distances, norms and coordinates are therefore restricted to \<open>exact_ring\<close>; for
  the approximate fields only the choice of the ring and of the computation is stated.

  The errors are the two exception classes that decide the properties below:
  \<^verbatim>\<open>ValueError\<close>, raised by \<^verbatim>\<open>regular_polygon\<close> itself, and \<^verbatim>\<open>TypeError\<close>,
  which stands for every failure inside the algebra library (a value that cannot be
  converted, a product of incompatible dimensions).
\<close>

datatype ring = ZZ | QQ | AA | RDF | RR | QuadraticField int

datatype error = ValueError | TypeError

definition exact_ring :: "ring \<Rightarrow> bool" where
  "exact_ring R = (R \<noteq> RDF \<and> R \<noteq> RR)"

text \<open>
  Modelled from the spec: the conversion of a value into a base ring, which lives in the
  ring classes outside \<^verbatim>\<open>library.py\<close>. A value that the supplied domain cannot
  represent is rejected (the spec's \<^verbatim>\<open>DomainMismatch\<close>; the docstring of
  \<^verbatim>\<open>icosahedron\<close> shows it as
  \<^verbatim>\<open>TypeError: unable to convert 1/4*sqrt(5) + 1/4 to a rational\<close>). The rational
  field holds the rationals, a quadratic extension generated by \<open>D\<close> holds
  \<open>a + b * sqrt D\<close> for rational \<open>a\<close>, \<open>b\<close> (its real elements are the rationals when
  \<open>D\<close> is negative), the algebraic reals and the approximate fields accept every value
  the recipes build.
\<close>

fun representable :: "ring \<Rightarrow> real \<Rightarrow> bool" where
  "representable ZZ x = (x \<in> \<int>)"
| "representable QQ x = (x \<in> \<rat>)"
| "representable (QuadraticField D) x =
     (if D < 0 then x \<in> \<rat> else (\<exists>a\<in>\<rat>. \<exists>b\<in>\<rat>. x = a + b * sqrt (real_of_int D)))"
| "representable AA x = True"
| "representable RDF x = True"
| "representable RR x = True"


text \<open>
  Modelled from the spec: vectors and matrices over a base ring, which the algebra
  library outside \<^verbatim>\<open>library.py\<close> provides. \<^verbatim>\<open>vector(base_ring, p)\<close> converts
  every coordinate into the base ring.
\<close>

definition vector :: "ring \<Rightarrow> real list \<Rightarrow> error + real list" where
  "vector R p = (if list_all (representable R) p then Inr p else Inl TypeError)"

text \<open>
  Modelled from the spec: a matrix with its dimensions. \<^verbatim>\<open>matrix(base_ring, rows)\<close>
  converts every entry into the base ring; an empty list of rows gives the
  \<open>0 \<times> 0\<close> matrix, and rows of different lengths are refused.
\<close>

record mat =
  nrows :: nat
  ncols :: nat
  rows :: "real list list"

definition matrix :: "ring \<Rightarrow> real list list \<Rightarrow> error + mat" where
  "matrix R rws =
     (if \<not> list_all (\<lambda>r. length r = length (hd rws)) rws then Inl TypeError
      else if \<not> list_all (list_all (representable R)) rws then Inl TypeError
      else Inr \<lparr>nrows = length rws,
                 ncols = (if rws = [] then 0 else length (hd rws)),
                 rows = rws\<rparr>)"

text \<open>
  Modelled from the spec: \<^verbatim>\<open>v.norm()\<close>, the Euclidean norm, and the scalar product of
  two vectors.
\<close>

definition norm_vec :: "real list \<Rightarrow> real" where
  "norm_vec v = sqrt (\<Sum>x\<leftarrow>v. x\<^sup>2)"

definition dot :: "real list \<Rightarrow> real list \<Rightarrow> real" where
  "dot u v = (\<Sum>(a, b)\<leftarrow>zip u v. a * b)"

text \<open>
  Modelled from the spec: \<^verbatim>\<open>m*v\<close>, the product of a matrix and a vector, refused
  when the vector's length is not the number of columns.
\<close>

definition mat_vec :: "mat \<Rightarrow> real list \<Rightarrow> error + real list" where
  "mat_vec m v =
     (if ncols m \<noteq> length v then Inl TypeError else Inr (map (\<lambda>r. dot r v) (rows m)))"


text \<open>Running a fallible step over a list: the first failure is the result.\<close>

fun map_err :: "('a \<Rightarrow> error + 'b) \<Rightarrow> 'a list \<Rightarrow> error + 'b list" where
  "map_err f [] = Inr []"
| "map_err f (x # xs) =
     (case f x of
        Inl e \<Rightarrow> Inl e
      | Inr y \<Rightarrow> (case map_err f xs of Inl e \<Rightarrow> Inl e | Inr ys \<Rightarrow> Inr (y # ys)))"

section \<open>The projection onto the zero-sum hyperplane\<close>

text \<open>
  \<^verbatim>\<open>[1]*i + [-i] + [0]*(d-i-1)\<close>, one element of \<^verbatim>\<open>basis\<close> in
  \<^verbatim>\<open>zero_sum_projection\<close>.
\<close>

definition basis_vector :: "nat \<Rightarrow> nat \<Rightarrow> real list" where
  "basis_vector d i = replicate i 1 @ [- real i] @ replicate (d - i - 1) 0"

text \<open>\<^verbatim>\<open>v / v.norm()\<close>.\<close>

definition unit_vector :: "real list \<Rightarrow> real list" where
  "unit_vector v = map (\<lambda>x. x / norm_vec v) v"

text \<open>
  \<^verbatim>\<open>zero_sum_projection(d, base_ring)\<close>: the basis vectors for \<open>i\<close> in
  \<^verbatim>\<open>range(1,d)\<close> are built over the base ring, normalized, and stacked as the rows of
  a matrix over the base ring. The dimension is a length (\<^verbatim>\<open>project_points\<close> passes
  \<^verbatim>\<open>len(vecs[0])\<close>), hence a natural number; for \<open>d \<le> 1\<close> the range is empty.
\<close>

definition zero_sum_projection :: "nat \<Rightarrow> ring \<Rightarrow> error + mat" where
  "zero_sum_projection d base_ring =
     (case map_err (\<lambda>i. vector base_ring (basis_vector d i)) [1..<d] of
        Inl e \<Rightarrow> Inl e
      | Inr basis \<Rightarrow> matrix base_ring (map unit_vector basis))"

text \<open>
  \<^verbatim>\<open>project_points(*points, **kwds)\<close>: with no points the empty list is returned at
  once; otherwise the base ring defaults to \<^verbatim>\<open>RDF\<close>, the points become vectors, the
  matrix is built once for the length of the first vector, and every vector is multiplied
  by it.
\<close>

definition project_points :: "real list list \<Rightarrow> ring option \<Rightarrow> error + real list list" where
  "project_points points base_ring =
     (if points = [] then Inr []
      else
        let R = (case base_ring of None \<Rightarrow> RDF | Some r \<Rightarrow> r) in
        case map_err (vector R) points of
          Inl e \<Rightarrow> Inl e
        | Inr vecs \<Rightarrow>
            (case zero_sum_projection (length (hd vecs)) R of
               Inl e \<Rightarrow> Inl e
             | Inr m \<Rightarrow> map_err (mat_vec m) vecs))"

text \<open>
  Every entry of every normalized basis vector can be converted into the base ring:
  what \<^verbatim>\<open>matrix(base_ring, ...)\<close> needs in order to succeed.
\<close>

definition entries_ok :: "ring \<Rightarrow> nat \<Rightarrow> bool" where
  "entries_ok R d = (\<forall>i\<in>{1..<d}. list_all (representable R) (unit_vector (basis_vector d i)))"

section \<open>Orbit expansion\<close>

text \<open>
  The recipes expand a seed list under a symmetry group with one comprehension,
  \<^verbatim>\<open>[p(v) for p in G for v in pts]\<close> (\<^verbatim>\<open>icosahedron\<close>,
  \<^verbatim>\<open>truncated_octahedron\<close>), or the equivalent loop
  \<^verbatim>\<open>for p in G: verts.extend(p(x) for x in gens)\<close> (\<^verbatim>\<open>icosidodecahedron\<close>). The
  group is taken as the list of its elements in iteration order, each element as the
  function it performs on a vector.
\<close>

definition expand :: "'a list \<Rightarrow> ('a \<Rightarrow> 'b) list \<Rightarrow> 'b list" where
  "expand seeds G = concat (map (\<lambda>p. map p seeds) G)"

text \<open>The loop of \<^verbatim>\<open>icosidodecahedron\<close>, with \<^verbatim>\<open>verts\<close> as the accumulator.\<close>

fun extend_loop :: "'a list \<Rightarrow> ('a \<Rightarrow> 'b) list \<Rightarrow> 'b list \<Rightarrow> 'b list" where
  "extend_loop gens [] verts = verts"
| "extend_loop gens (p # G) verts = extend_loop gens G (verts @ map p gens)"


text \<open>
  Modelled from the spec: \<^verbatim>\<open>Permutations(3)\<close>, all permutations of three coordinates;
  the combinatorics library lists them in lexicographic order, in one-line notation.
\<close>

definition Permutations3 :: "nat list list" where
  "Permutations3 = [[1,2,3], [1,3,2], [2,1,3], [2,3,1], [3,1,2], [3,2,1]]"

text \<open>
  \<^verbatim>\<open>(xyz[sigma(1) - 1], xyz[sigma(2) - 1], xyz[sigma(3) - 1])\<close> of
  \<^verbatim>\<open>truncated_octahedron\<close>; \<^verbatim>\<open>sigma(k)\<close> is the \<open>k\<close>-th entry of the permutation.
\<close>

definition permute3 :: "nat list \<Rightarrow> 'a list \<Rightarrow> 'a list" where
  "permute3 sigma xyz = [xyz ! (sigma ! 0 - 1), xyz ! (sigma ! 1 - 1), xyz ! (sigma ! 2 - 1)]"

text \<open>The two comprehensions of \<^verbatim>\<open>truncated_octahedron\<close>.\<close>

definition truncated_octahedron_seeds :: "int list list" where
  "truncated_octahedron_seeds = concat (map (\<lambda>e. map (\<lambda>f. [0, e, f]) [-2, 2]) [-1, 1])"

definition truncated_octahedron_verts :: "int list list" where
  "truncated_octahedron_verts = expand truncated_octahedron_seeds (map permute3 Permutations3)"

section \<open>Recipes\<close>

















section \<open>Lemmas: the orbit expansion\<close>

lemma expand_Nil_group: "expand seeds [] = []"
  by (simp add: expand_def)

lemma expand_Cons_group: "expand seeds (p # G) = map p seeds @ expand seeds G"
  by (simp add: expand_def)

lemma length_expand: "length (expand seeds G) = length G * length seeds"
  by (induction G) (simp_all add: expand_Nil_group expand_Cons_group)

lemma set_expand: "set (expand seeds G) = (\<Union>p\<in>set G. p ` set seeds)"
  by (simp add: expand_def)



lemma to_seeds: "truncated_octahedron_seeds = [[0,-1,-2],[0,-1,2],[0,1,-2],[0,1,2]]"
  by (simp add: truncated_octahedron_seeds_def)

text \<open>
  The seeds of \<^verbatim>\<open>truncated_octahedron\<close> are chosen so that no vector is produced
  twice.
\<close>

lemma truncated_octahedron_verts_distinct:
  "distinct truncated_octahedron_verts \<and> length truncated_octahedron_verts = 24"
  by (simp add: truncated_octahedron_verts_def to_seeds expand_def Permutations3_def permute3_def)



section \<open>Lemmas: vectors, scalar products and norms\<close>

lemma length_basis_vector: "i < d \<Longrightarrow> length (basis_vector d i) = d"
  by (simp add: basis_vector_def)

lemma sum_list_take_nth: "i \<le> length x \<Longrightarrow> sum_list (take i x) = (\<Sum>j<i. x ! j)" for x :: "real list"
  by (simp add: sum_list_sum_nth atLeast0LessThan)

lemma dot_replicate: "dot (replicate n c) v = c * sum_list (take n v)"
  by (simp add: dot_def zip_replicate1 comp_def sum_list_const_mult)

lemma dot_Nil [simp]: "dot [] v = 0" "dot u [] = 0"
  by (simp_all add: dot_def)

lemma dot_Cons [simp]: "dot (a # u) (b # v) = a * b + dot u v"
  by (simp add: dot_def)

lemma dot_append:
  "length u = length v \<Longrightarrow> dot (u @ u') (v @ v') = dot u v + dot u' v'"
  by (simp add: dot_def)

lemma dot_basis_vector:
  assumes "i < length x"
  shows "dot (basis_vector (length x) i) x = (\<Sum>j<i. x ! j) - real i * x ! i"
proof -
  have x: "x = take i x @ [x ! i] @ drop (Suc i) x"
    using assms by (simp add: id_take_nth_drop [symmetric])
  have "dot (basis_vector (length x) i) x =
      dot (replicate i 1 @ [- real i] @ replicate (length x - i - 1) 0) (take i x @ [x ! i] @ drop (Suc i) x)"
    using x by (simp add: basis_vector_def)
  also have "\<dots> = dot (replicate i 1) (take i x) + (dot [- real i] [x ! i] + dot (replicate (length x - i - 1) 0) (drop (Suc i) x))"
    using assms by (simp add: dot_append)
  also have "\<dots> = sum_list (take i x) - real i * x ! i"
    by (simp add: dot_replicate)
  finally show ?thesis using assms by (simp add: sum_list_take_nth)
qed

lemma sum_squares_basis_vector:
  "(\<Sum>x\<leftarrow>basis_vector d i. x\<^sup>2) = real i * (real i + 1)"
  by (simp add: basis_vector_def sum_list_replicate power2_eq_square algebra_simps)

lemma norm_basis_vector: "norm_vec (basis_vector d i) = sqrt (real i * (real i + 1))"
  by (simp add: norm_vec_def sum_squares_basis_vector)

lemma norm_basis_vector_pos: "0 < i \<Longrightarrow> 0 < norm_vec (basis_vector d i)"
  by (simp add: norm_basis_vector)

lemma dot_unit_vector: "dot (unit_vector u) v = dot u v / norm_vec u"
proof -
  have "dot (map (\<lambda>x. x / c) u) v = dot u v / c" for c
  proof (induction u arbitrary: v)
    case Nil
    then show ?case by simp
  next
    case (Cons a u)
    then show ?case by (cases v) (simp_all add: add_divide_distrib)
  qed
  then show ?thesis by (simp add: unit_vector_def)
qed

lemma length_unit_vector [simp]: "length (unit_vector v) = length v"
  by (simp add: unit_vector_def)

lemma sum_list_divide_const: "(\<Sum>x\<leftarrow>v. f x / c) = (\<Sum>x\<leftarrow>v. f x) / c" for c :: real
  by (induction v) (simp_all add: add_divide_distrib)

lemma sum_squares_nonneg: "0 \<le> (\<Sum>x\<leftarrow>v. x\<^sup>2)" for v :: "real list"
  by (induction v) simp_all

lemma norm_vec_sq: "(norm_vec v)\<^sup>2 = (\<Sum>x\<leftarrow>v. x\<^sup>2)"
  by (simp add: norm_vec_def sum_squares_nonneg)

lemma norm_unit_vector: "0 < norm_vec v \<Longrightarrow> norm_vec (unit_vector v) = 1"
proof -
  assume p: "0 < norm_vec v"
  have "(\<Sum>x\<leftarrow>unit_vector v. x\<^sup>2) = (\<Sum>x\<leftarrow>v. x\<^sup>2) / (norm_vec v)\<^sup>2"
    by (simp add: unit_vector_def comp_def power_divide sum_list_divide_const)
  also have "\<dots> = 1" using p by (simp add: norm_vec_sq [symmetric])
  finally show ?thesis by (simp add: norm_vec_def)
qed

lemma dot_basis_ones: "i < d \<Longrightarrow> dot (basis_vector d i) (replicate d 1) = 0"
  using dot_basis_vector [of i "replicate d 1"] by simp







section \<open>Lemmas: the identity behind the isometry\<close>



section \<open>Lemmas: values a base ring can represent\<close>

lemma representable_of_int: "representable R (of_int k)"
proof (cases R)
  case (QuadraticField D)
  have "\<exists>a\<in>\<rat>. \<exists>b\<in>\<rat>. real_of_int k = a + b * sqrt (real_of_int D)"
    by (rule bexI [of _ "real_of_int k"], rule bexI [of _ 0]) simp_all
  then show ?thesis unfolding QuadraticField by simp
qed simp_all

lemma representable_basis_vector: "list_all (representable R) (basis_vector d i)"
proof -
  have "representable R 1" "representable R 0" "representable R (- real i)"
    using representable_of_int [of R 1] representable_of_int [of R 0]
      representable_of_int [of R "- int i"] by simp_all
  then show ?thesis by (auto simp: basis_vector_def list_all_iff)
qed

lemma representable_quadratic:
  "a \<in> \<rat> \<Longrightarrow> b \<in> \<rat> \<Longrightarrow> 0 \<le> D \<Longrightarrow>
     representable (QuadraticField D) (a + b * sqrt (real_of_int D))"
  by auto


lemma sqrt_nat_irrational:
  assumes "\<And>m::nat. n \<noteq> m\<^sup>2"
  shows "sqrt (real n) \<notin> \<rat>"
proof
  assume "sqrt (real n) \<in> \<rat>"
  then obtain m k :: nat where k: "k \<noteq> 0" and eq: "\<bar>sqrt (real n)\<bar> = real m / real k"
    and cop: "coprime m k"
    by (rule Rats_abs_nat_div_natE)
  from eq k have "sqrt (real n) * real k = real m" by (simp add: field_simps)
  then have "(sqrt (real n) * real k)\<^sup>2 = (real m)\<^sup>2" by simp
  then have "real n * (real k)\<^sup>2 = (real m)\<^sup>2" by (simp add: power_mult_distrib)
  then have "real (n * k\<^sup>2) = real (m\<^sup>2)" by simp
  then have e: "n * k\<^sup>2 = m\<^sup>2" by (simp only: of_nat_eq_iff)
  then have "k\<^sup>2 dvd m\<^sup>2" by (metis dvd_triv_right)
  then have "k dvd m" by simp
  from coprime_common_divisor_nat [OF cop this dvd_refl] have "k = 1" .
  with e have "n = m\<^sup>2" by simp
  with assms show False by blast
qed

lemma not_square_between:
  fixes a n m :: nat
  assumes "a\<^sup>2 < n" "n < (Suc a)\<^sup>2"
  shows "n \<noteq> m\<^sup>2"
proof
  assume "n = m\<^sup>2"
  with assms have "a\<^sup>2 < m\<^sup>2" "m\<^sup>2 < (Suc a)\<^sup>2" by simp_all
  then have "a < m" "m < Suc a" by (simp_all add: power2_less_imp_less)
  then show False by simp
qed

lemma sqrt_2_irrational: "sqrt 2 \<notin> \<rat>"
proof -
  have "(2::nat) \<noteq> m\<^sup>2" for m
    by (rule not_square_between [of 1]) (simp_all add: power2_eq_square)
  from sqrt_nat_irrational [OF this] show ?thesis by simp
qed






section \<open>Lemmas: the fallible steps\<close>

lemma map_err_all_Inr:
  "(\<And>x. x \<in> set xs \<Longrightarrow> f x = Inr (g x)) \<Longrightarrow> map_err f xs = Inr (map g xs)"
  by (induction xs) simp_all


lemma map_err_InrD:
  "map_err f xs = Inr ys \<Longrightarrow> list_all2 (\<lambda>x y. f x = Inr y) xs ys"
  by (induction xs arbitrary: ys) (auto split: sum.splits)

lemma list_all2_fun_eq_map: "list_all2 (\<lambda>x y. y = g x) xs ys \<Longrightarrow> ys = map g xs"
  by (induction xs ys rule: list_all2_induct) simp_all

lemma vector_InrD: "vector R p = Inr v \<Longrightarrow> v = p \<and> list_all (representable R) p"
  by (auto simp: vector_def split: if_splits)


lemma matrix_InrD:
  "matrix R rws = Inr M \<Longrightarrow>
     rows M = rws \<and> nrows M = length rws \<and> ncols M = (if rws = [] then 0 else length (hd rws))
     \<and> list_all (list_all (representable R)) rws"
  by (auto simp: matrix_def split: if_splits)


section \<open>Lemmas: what the projection functions return\<close>

lemma zero_sum_projection_InrD:
  assumes "zero_sum_projection d R = Inr M"
  shows "rows M = map (\<lambda>i. unit_vector (basis_vector d i)) [1..<d]"
    and "nrows M = d - 1"
    and "ncols M = (if d \<le> 1 then 0 else d)"
    and "list_all (list_all (representable R)) (rows M)"
proof -
  from assms obtain basis where
    b: "map_err (\<lambda>i. vector R (basis_vector d i)) [1..<d] = Inr basis"
    and m: "matrix R (map unit_vector basis) = Inr M"
    by (auto simp: zero_sum_projection_def split: sum.splits)
  from map_err_InrD [OF b] have "list_all2 (\<lambda>i v. v = basis_vector d i) [1..<d] basis"
    by (rule list_all2_mono) (auto dest: vector_InrD)
  then have basis: "basis = map (basis_vector d) [1..<d]"
    by (rule list_all2_fun_eq_map)
  from matrix_InrD [OF m] show "rows M = map (\<lambda>i. unit_vector (basis_vector d i)) [1..<d]"
    by (simp add: basis comp_def)
  from matrix_InrD [OF m] show "nrows M = d - 1" by (simp add: basis)
  from matrix_InrD [OF m] show "list_all (list_all (representable R)) (rows M)" by simp
  show "ncols M = (if d \<le> 1 then 0 else d)"
  proof (cases "d \<le> 1")
    case True
    then have "[1..<d] = []" by simp
    with matrix_InrD [OF m] True show ?thesis by (simp add: basis)
  next
    case False
    then have "[1..<d] = 1 # [Suc 1..<d]" by (simp add: upt_conv_Cons)
    with matrix_InrD [OF m] False show ?thesis
      by (simp add: basis unit_vector_def length_basis_vector)
  qed
qed

lemma zero_sum_projection_eq:
  "zero_sum_projection d R =
     (if entries_ok R d
      then Inr \<lparr>nrows = d - 1, ncols = (if d \<le> 1 then 0 else d),
                 rows = map (\<lambda>i. unit_vector (basis_vector d i)) [1..<d]\<rparr>
      else Inl TypeError)"
proof -
  have b: "map_err (\<lambda>i. vector R (basis_vector d i)) [1..<d] = Inr (map (basis_vector d) [1..<d])"
    by (rule map_err_all_Inr) (simp add: vector_def representable_basis_vector)
  have len: "list_all (\<lambda>r. length r = length (hd (map unit_vector (map (basis_vector d) [1..<d]))))
      (map unit_vector (map (basis_vector d) [1..<d]))"
  proof (cases "d \<le> 1")
    case True
    then show ?thesis by simp
  next
    case False
    then have "[1..<d] = 1 # [Suc 1..<d]" by (simp add: upt_conv_Cons)
    then have "length (hd (map unit_vector (map (basis_vector d) [1..<d]))) = d"
      using False by (simp add: length_basis_vector)
    then show ?thesis by (simp add: list_all_iff length_basis_vector)
  qed
  have hdlen: "d > 1 \<Longrightarrow> length (hd (map unit_vector (map (basis_vector d) [1..<d]))) = d"
    by (simp add: upt_conv_Cons length_basis_vector)
  have ok: "list_all (list_all (representable R)) (map unit_vector (map (basis_vector d) [1..<d]))
      \<longleftrightarrow> entries_ok R d"
    by (auto simp: entries_ok_def list_all_iff)
  show ?thesis
    unfolding zero_sum_projection_def b sum.case matrix_def
    using len ok hdlen by (auto simp: comp_def)
qed

lemma entries_ok_AA: "entries_ok AA d"
  by (simp add: entries_ok_def list_all_iff)


lemma not_entries_ok_QQ_2: "\<not> entries_ok QQ 2"
proof
  assume "entries_ok QQ 2"
  then have "list_all (representable QQ) (unit_vector (basis_vector 2 1))"
    by (simp add: entries_ok_def)
  then have "1 / sqrt 2 \<in> \<rat>"
    by (simp add: unit_vector_def basis_vector_def norm_vec_def)
  then have "1 / (1 / sqrt 2) \<in> \<rat>" by (rule Rats_divide [OF Rats_1])
  then show False using sqrt_2_irrational by simp
qed



lemma project_points_eq:
  assumes "pts \<noteq> []" and "\<forall>v\<in>set pts. length v = d" and "2 \<le> d" and "entries_ok R d"
    and "\<forall>v\<in>set pts. list_all (representable R) v"
  shows "project_points pts (Some R) =
           Inr (map (\<lambda>v. map (\<lambda>r. dot r v) (map (\<lambda>i. unit_vector (basis_vector d i)) [1..<d])) pts)"
proof -
  have v: "map_err (vector R) pts = Inr (map (\<lambda>v. v) pts)"
    by (rule map_err_all_Inr) (simp add: vector_def assms(5))
  have "hd pts \<in> set pts" using assms(1) by simp
  then have hd: "length (hd pts) = d" using assms(2) by simp
  define M where "M = \<lparr>nrows = d - 1, ncols = d,
      rows = map (\<lambda>i. unit_vector (basis_vector d i)) [1..<d]\<rparr>"
  have z: "zero_sum_projection d R = Inr M"
    using assms(3,4) by (simp add: zero_sum_projection_eq M_def)
  have m: "map_err (mat_vec M) pts = Inr (map (\<lambda>v. map (\<lambda>r. dot r v) (rows M)) pts)"
    by (rule map_err_all_Inr) (simp add: mat_vec_def M_def assms(2))
  show ?thesis
    using assms(1) by (simp add: project_points_def v hd z m) (simp add: M_def)
qed

lemma upt_1_3: "[Suc 0..<3] = [Suc 0, 2]"
  by (simp add: upt_rec)

lemma rows_3: "map (\<lambda>i. unit_vector (basis_vector 3 i)) [Suc 0..<3]
    = [[1 / sqrt 2, - 1 / sqrt 2, 0], [1 / sqrt 6, 1 / sqrt 6, - 2 / sqrt 6]]"
  by (simp add: upt_1_3 unit_vector_def basis_vector_def norm_vec_def eval_nat_numeral)

lemma entries_ok_QuadraticField_2: "entries_ok (QuadraticField 2) 2"
proof -
  have "representable (QuadraticField 2) (0 + (1 / 2) * sqrt (real_of_int 2))"
    "representable (QuadraticField 2) (0 + (- (1 / 2)) * sqrt (real_of_int 2))"
    by (rule representable_quadratic; simp)+
  moreover have "0 + (1 / 2) * sqrt (real_of_int 2) = 1 / sqrt 2"
    "0 + (- (1 / 2)) * sqrt (real_of_int 2) = - (1 / sqrt 2)"
    by (simp_all add: real_div_sqrt)
  ultimately have "representable (QuadraticField 2) (1 / sqrt 2)"
    "representable (QuadraticField 2) (- (1 / sqrt 2))"
    by (simp_all only:)
  moreover have "{1..<2::nat} = {1}" by auto
  moreover have "unit_vector (basis_vector 2 1) = [1 / sqrt 2, - (1 / sqrt 2)]"
    by (simp add: unit_vector_def basis_vector_def norm_vec_def)
  ultimately show ?thesis
    by (simp add: entries_ok_def)
qed

lemma upt_1_4: "[Suc 0..<4] = [Suc 0, 2, 3]"
  by (simp add: upt_rec)

lemma rows_4: "map (\<lambda>i. unit_vector (basis_vector 4 i)) [Suc 0..<4]
    = [[1 / sqrt 2, - 1 / sqrt 2, 0, 0], [1 / sqrt 6, 1 / sqrt 6, - 2 / sqrt 6, 0],
       [1 / sqrt 12, 1 / sqrt 12, 1 / sqrt 12, - 3 / sqrt 12]]"
  by (simp add: upt_1_4 unit_vector_def basis_vector_def norm_vec_def eval_nat_numeral)

text \<open>
  The first example of the docstring of \<^verbatim>\<open>project_points\<close>, over \<^verbatim>\<open>AA\<close>:
  \<open>(2.1213..., -2.0412..., -0.5773...)\<close>.
\<close>

lemma project_points_docstring_example:
  "project_points [[2, -1, 3, 2]] (Some AA) = Inr [[3 / sqrt 2, - 5 / sqrt 6, - 2 / sqrt 12]]"
  using project_points_eq [of "[[2, -1, 3, 2]]" 4 AA]
  by (simp add: entries_ok_AA rows_4 comp_def map_map [symmetric] del: map_map)

section \<open>Lemmas: the assembly and the recipes\<close>







section \<open>Properties of the program\<close>

subsection \<open>Isometry of the projection\<close>



subsection \<open>Orbit expansion: superset and duplicates\<close>

text \<open>
  What the comprehension does to the seed \<open>(1,1,-1)\<close> under all permutations of three
  coordinates: six entries, one per permutation, each of the three distinct vectors
  twice. Nothing in the recipes removes duplicates.
\<close>

theorem expand_permutations_has_duplicates:
  "expand [[1, 1, -1 :: int]] (map permute3 Permutations3) =
     [[1,1,-1],[1,-1,1],[1,1,-1],[1,-1,1],[-1,1,1],[-1,1,1]]
   \<and> \<not> distinct (expand [[1, 1, -1 :: int]] (map permute3 Permutations3))
   \<and> length (expand [[1, 1, -1 :: int]] (map permute3 Permutations3)) \<noteq> 3"
  by (simp add: expand_def Permutations3_def permute3_def)

text \<open>
  C2, as the code behaves: when the group contains an element that fixes every seed (the
  identity), the expansion is a superset of the seed list; its entries are exactly the
  images \<open>p v\<close>, one entry per pair of a group element and a seed, so
  \<open>length G * length S\<close> entries; it is free of duplicates exactly when these images
  are that many distinct vectors.
\<close>

theorem expand_superset_orbit:
  assumes "\<exists>p\<in>set G. \<forall>v\<in>set S. p v = v"
  shows "set S \<subseteq> set (expand S G)
       \<and> set (expand S G) = (\<Union>p\<in>set G. p ` set S)
       \<and> length (expand S G) = length G * length S
       \<and> (distinct (expand S G) \<longleftrightarrow> card (\<Union>p\<in>set G. p ` set S) = length G * length S)"
proof -
  from assms obtain p where p: "p \<in> set G" "\<forall>v\<in>set S. p v = v" by blast
  have "set S \<subseteq> set (expand S G)"
  proof
    fix v assume "v \<in> set S"
    with p have "v \<in> p ` set S" by force
    with p(1) show "v \<in> set (expand S G)" unfolding set_expand by blast
  qed
  moreover have "distinct (expand S G) \<longleftrightarrow> card (set (expand S G)) = length (expand S G)"
    using distinct_card card_distinct by blast
  ultimately show ?thesis by (simp add: set_expand length_expand)
qed

text \<open>The seed \<open>(1,1,-1)\<close> under all permutations of three coordinates.\<close>

theorem expand_superset_orbit_witness:
  "set [[1, 1, -1 :: int]] \<subseteq> set (expand [[1, 1, -1]] (map permute3 Permutations3))
   \<and> set (expand [[1, 1, -1 :: int]] (map permute3 Permutations3)) = {[1,1,-1],[1,-1,1],[-1,1,1]}
   \<and> length (expand [[1, 1, -1 :: int]] (map permute3 Permutations3)) = 6"
proof -
  have h: "\<exists>p\<in>set (map permute3 Permutations3). \<forall>v\<in>set [[1, 1, -1 :: int]]. p v = v"
    by (simp add: Permutations3_def permute3_def)
  from expand_superset_orbit [OF h] show ?thesis
    by (simp add: expand_def Permutations3_def permute3_def insert_commute)
qed

subsection \<open>Rows of the projection matrix\<close>

text \<open>
  Over the rationals the first row \<open>(1,-1) / sqrt 2\<close> cannot be converted, and
  \<^verbatim>\<open>zero_sum_projection(2, base_ring=QQ)\<close> raises instead of returning a matrix.
\<close>

theorem zero_sum_projection_QQ_fails: "zero_sum_projection 2 QQ = Inl TypeError"
  by (simp add: zero_sum_projection_eq not_entries_ok_QQ_2)

text \<open>
  C3, as the code behaves: for every \<open>d \<ge> 2\<close> and every exact base ring into which
  the normalized entries can be converted, \<^verbatim>\<open>zero_sum_projection(d)\<close> returns a
  \<open>(d-1) \<times> d\<close> matrix whose \<open>i\<close>-th row (\<open>i\<close> from \<open>1\<close> to \<open>d-1\<close>) is
  \<open>basis_vector d i\<close>, that is \<open>i\<close> ones, one \<open>-i\<close> and \<open>d-i-1\<close> zeros, divided by
  its Euclidean norm; every row has length \<open>d\<close>, unit norm and is orthogonal to the
  all-ones vector.
\<close>

theorem zero_sum_projection_rows:
  assumes "2 \<le> d" and "exact_ring R" and "entries_ok R d"
  shows "\<exists>M. zero_sum_projection d R = Inr M \<and> nrows M = d - 1 \<and> ncols M = d
           \<and> length (rows M) = d - 1
           \<and> (\<forall>i\<in>{1..<d}.
                 rows M ! (i - 1) = unit_vector (basis_vector d i)
               \<and> length (rows M ! (i - 1)) = d
               \<and> norm_vec (rows M ! (i - 1)) = 1
               \<and> dot (rows M ! (i - 1)) (replicate d 1) = 0)"
proof -
  define M where "M = \<lparr>nrows = d - 1, ncols = d,
      rows = map (\<lambda>i. unit_vector (basis_vector d i)) [1..<d]\<rparr>"
  have z: "zero_sum_projection d R = Inr M"
    using assms by (simp add: zero_sum_projection_eq M_def)
  have dims: "nrows M = d - 1" "ncols M = d" "length (rows M) = d - 1"
    by (simp_all add: M_def)
  have row: "rows M ! (i - 1) = unit_vector (basis_vector d i)" if "i \<in> {1..<d}" for i
  proof -
    from that have "i - 1 < length [1..<d]" "1 + (i - 1) = i" by auto
    then show ?thesis by (simp add: M_def del: upt_Suc)
  qed
  have props: "\<forall>i\<in>{1..<d}.
                 rows M ! (i - 1) = unit_vector (basis_vector d i)
               \<and> length (rows M ! (i - 1)) = d
               \<and> norm_vec (rows M ! (i - 1)) = 1
               \<and> dot (rows M ! (i - 1)) (replicate d 1) = 0"
  proof
    fix i assume i: "i \<in> {1..<d}"
    then have "0 < i" "i < d" by simp_all
    then show "rows M ! (i - 1) = unit_vector (basis_vector d i)
               \<and> length (rows M ! (i - 1)) = d
               \<and> norm_vec (rows M ! (i - 1)) = 1
               \<and> dot (rows M ! (i - 1)) (replicate d 1) = 0"
      unfolding row [OF i]
      by (simp add: norm_unit_vector norm_basis_vector_pos length_basis_vector
          dot_unit_vector dot_basis_ones)
  qed
  from z dims props show ?thesis by blast
qed

text \<open>
  Dimension three over \<^verbatim>\<open>AA\<close>: the matrix of the docstring of
  \<^verbatim>\<open>zero_sum_projection\<close>.
\<close>

theorem zero_sum_projection_rows_witness:
  "(2::nat) \<le> 3 \<and> exact_ring AA \<and> entries_ok AA 3
   \<and> (\<exists>M. zero_sum_projection 3 AA = Inr M \<and> nrows M = 2 \<and> ncols M = 3
        \<and> rows M = [[1 / sqrt 2, - 1 / sqrt 2, 0], [1 / sqrt 6, 1 / sqrt 6, - 2 / sqrt 6]]
        \<and> norm_vec (rows M ! 0) = 1 \<and> norm_vec (rows M ! 1) = 1
        \<and> dot (rows M ! 0) [1, 1, 1] = 0 \<and> dot (rows M ! 1) [1, 1, 1] = 0)"
proof -
  have e: "exact_ring AA" by (simp add: exact_ring_def)
  have r: "replicate 3 (1::real) = [1, 1, 1]" by (simp add: numeral_3_eq_3)
  from zero_sum_projection_rows [OF _ e entries_ok_AA, of 3] obtain M where
    M: "zero_sum_projection 3 AA = Inr M" "nrows M = 2" "ncols M = 3"
    and rw: "\<forall>i\<in>{1..<3}. rows M ! (i - 1) = unit_vector (basis_vector 3 i)
               \<and> length (rows M ! (i - 1)) = 3
               \<and> norm_vec (rows M ! (i - 1)) = 1
               \<and> dot (rows M ! (i - 1)) (replicate 3 1) = 0"
    by auto
  from rw have "norm_vec (rows M ! 0) = 1 \<and> dot (rows M ! 0) [1, 1, 1] = 0"
    by (auto simp: r dest: bspec [of _ _ 1])
  moreover from rw have "norm_vec (rows M ! 1) = 1 \<and> dot (rows M ! 1) [1, 1, 1] = 0"
    by (auto simp: r dest: bspec [of _ _ 2])
  moreover from zero_sum_projection_InrD(1) [OF M(1)]
  have "rows M = [[1 / sqrt 2, - 1 / sqrt 2, 0], [1 / sqrt 6, 1 / sqrt 6, - 2 / sqrt 6]]"
    by (simp add: rows_3)
  ultimately show ?thesis using M e entries_ok_AA by auto
qed

subsection \<open>Prefix compatibility of the projection\<close>



subsection \<open>Choice of the base ring\<close>


subsection \<open>A base ring without the constant\<close>



subsection \<open>Order of the orbit expansion\<close>




subsection \<open>Empty group action\<close>

text \<open>
  With an empty group the comprehension returns the empty vertex list; no error is
  raised.
\<close>

theorem empty_group_returns_empty_list: "expand [[1, 1, -1 :: int]] [] = []"
  by (simp add: expand_def)

text \<open>
  C8, as the code behaves: for every seed list, the expansion under an empty group is the
  empty vertex list, from the comprehension and from the loop alike.
\<close>

theorem expand_empty_group: "expand S [] = [] \<and> extend_loop S [] [] = []"
  by (simp add: expand_def)

subsection \<open>No points\<close>

text \<open>
  C9: \<^verbatim>\<open>project_points\<close> called with no points returns the empty list, whatever
  the base ring keyword is (absent or any ring); no vector and no matrix is built and no
  error is raised.
\<close>

theorem project_points_no_points: "project_points [] base_ring = Inr []"
  by (simp add: project_points_def)

subsection \<open>Regular polygons\<close>



end
